theory Spec2Isabelle
  imports Main "HOL-Library.Word" "HOL-Library.Monad_Syntax" "HOL-Library.Log_Nat"
    "HOL-Library.Multiset"
begin

unbundle bit_operations_syntax

section \<open>Data model (message.hpp)\<close>

type_synonym u8 = "8 word"
type_synonym u32 = "32 word"
type_synonym u64 = "64 word"

text \<open>
  A \<^verbatim>\<open>double\<close> field of a message is carried as its IEEE-754 binary64 bit pattern: the
  codec copies the 8 raw bytes and the validator only compares. A \<^verbatim>\<open>std::string\<close> is
  its sequence of bytes.
\<close>

type_synonym double = u64

text \<open>
  \<^verbatim>\<open>enum class MessageType : uint8_t\<close> and \<^verbatim>\<open>MessagePriority\<close>. The fields hold a byte:
  \<^verbatim>\<open>deserialize\<close> stores \<^verbatim>\<open>static_cast<MessageType>(data[pos++])\<close> for any byte.
\<close>

abbreviation ORDER_NEW :: u8 where "ORDER_NEW \<equiv> 1"
abbreviation ORDER_CANCEL :: u8 where "ORDER_CANCEL \<equiv> 2"
abbreviation ORDER_REPLACE :: u8 where "ORDER_REPLACE \<equiv> 3"
abbreviation ORDER_FILL :: u8 where "ORDER_FILL \<equiv> 4"
abbreviation MARKET_DATA :: u8 where "MARKET_DATA \<equiv> 5"
abbreviation HEARTBEAT :: u8 where "HEARTBEAT \<equiv> 6"
abbreviation LOGIN :: u8 where "LOGIN \<equiv> 7"
abbreviation LOGOUT :: u8 where "LOGOUT \<equiv> 8"
abbreviation ERROR :: u8 where "ERROR \<equiv> 9"

abbreviation LOW :: u8 where "LOW \<equiv> 1"
abbreviation NORMAL :: u8 where "NORMAL \<equiv> 2"
abbreviation HIGH :: u8 where "HIGH \<equiv> 3"
abbreviation CRITICAL :: u8 where "CRITICAL \<equiv> 4"

text \<open>
  The base class and its subclasses, as a record and its extensions. The members
  \<^verbatim>\<open>type_\<close>, \<^verbatim>\<open>priority_\<close>, ... lose the trailing underscore; the \<^verbatim>\<open>symbol_\<close> of a
  market data message is \<open>md_symbol\<close>. \<open>receive_time\<close> is a clock reading in
  nanoseconds.
\<close>

record Message =
  msg_type :: u8
  priority :: u8
  sequence_number :: u64
  timestamp :: u64
  client_id :: u64
  receive_time :: int

record OrderMessage = Message +
  order_id :: u64
  symbol :: "u8 list"
  price :: double
  quantity :: u32
  is_buy :: bool

record MarketDataMessage = Message +
  md_symbol :: "u8 list"
  bid :: double
  ask :: double
  bid_size :: u32
  ask_size :: u32

type_synonym HeartbeatMessage = Message

record ErrorMessage = Message +
  error_code :: u32
  error_message :: "u8 list"

text \<open>
  \<^verbatim>\<open>std::shared_ptr<Message>\<close>: a possibly null pointer to an object of one of the four
  concrete classes. The constructor is the dynamic type that \<^verbatim>\<open>dynamic_pointer_cast\<close>
  tests; it is independent of the \<open>msg_type\<close> field.
\<close>

datatype AnyMessage =
  AsOrder OrderMessage
| AsMarketData MarketDataMessage
| AsHeartbeat HeartbeatMessage
| AsError ErrorMessage

fun getType :: "AnyMessage \<Rightarrow> u8" where
  "getType (AsOrder m) = msg_type m"
| "getType (AsMarketData m) = msg_type m"
| "getType (AsHeartbeat m) = msg_type m"
| "getType (AsError m) = msg_type m"

fun getSequenceNumber :: "AnyMessage \<Rightarrow> u64" where
  "getSequenceNumber (AsOrder m) = sequence_number m"
| "getSequenceNumber (AsMarketData m) = sequence_number m"
| "getSequenceNumber (AsHeartbeat m) = sequence_number m"
| "getSequenceNumber (AsError m) = sequence_number m"

fun getTimestamp :: "AnyMessage \<Rightarrow> u64" where
  "getTimestamp (AsOrder m) = timestamp m"
| "getTimestamp (AsMarketData m) = timestamp m"
| "getTimestamp (AsHeartbeat m) = timestamp m"
| "getTimestamp (AsError m) = timestamp m"

section \<open>Message construction and the global sequence counter (message.cpp)\<close>

text \<open>
  \<^verbatim>\<open>Message::Message(type, priority)\<close> reads the clock (\<open>now\<close>, microseconds since the
  epoch) and the process-wide \<^verbatim>\<open>global_sequence_counter_\<close>, which starts at 0.
  \<^verbatim>\<open>fetch_add(1)\<close> returns the value before the addition; the counter is a
  \<^verbatim>\<open>uint64_t\<close> and wraps. The constructor returns the object and the new counter.
\<close>

definition global_sequence_counter_init :: u64 where
  "global_sequence_counter_init = 0"

definition Message_ctor :: "u8 \<Rightarrow> u8 \<Rightarrow> u64 \<Rightarrow> u64 \<Rightarrow> Message \<times> u64" where
  "Message_ctor type prio now counter =
     (\<lparr>msg_type = type, priority = prio, sequence_number = counter, timestamp = now,
       client_id = 0, receive_time = 0\<rparr>,
      counter + 1)"

definition OrderMessage_ctor ::
  "u64 \<Rightarrow> u8 list \<Rightarrow> double \<Rightarrow> u32 \<Rightarrow> bool \<Rightarrow> u64 \<Rightarrow> u64 \<Rightarrow> OrderMessage \<times> u64" where
  "OrderMessage_ctor oid smb pr qty buy now counter =
     (case Message_ctor ORDER_NEW NORMAL now counter of
        (base, counter') \<Rightarrow>
          (Message.extend base
             (OrderMessage.fields oid smb pr qty buy), counter'))"

definition OrderMessage_default :: "u64 \<Rightarrow> u64 \<Rightarrow> OrderMessage \<times> u64" where
  "OrderMessage_default now counter = OrderMessage_ctor 0 [] 0 0 True now counter"

definition MarketDataMessage_ctor ::
  "u8 list \<Rightarrow> double \<Rightarrow> double \<Rightarrow> u32 \<Rightarrow> u32 \<Rightarrow> u64 \<Rightarrow> u64 \<Rightarrow> MarketDataMessage \<times> u64" where
  "MarketDataMessage_ctor smb b a bsz asz now counter =
     (case Message_ctor MARKET_DATA NORMAL now counter of
        (base, counter') \<Rightarrow>
          (Message.extend base
             (MarketDataMessage.fields smb b a bsz asz), counter'))"

definition MarketDataMessage_default :: "u64 \<Rightarrow> u64 \<Rightarrow> MarketDataMessage \<times> u64" where
  "MarketDataMessage_default now counter = MarketDataMessage_ctor [] 0 0 0 0 now counter"

definition HeartbeatMessage_ctor :: "u64 \<Rightarrow> u64 \<Rightarrow> u64 \<Rightarrow> HeartbeatMessage \<times> u64" where
  "HeartbeatMessage_ctor cid now counter =
     (case Message_ctor HEARTBEAT NORMAL now counter of
        (base, counter') \<Rightarrow> (base\<lparr>client_id := cid\<rparr>, counter'))"

definition HeartbeatMessage_default :: "u64 \<Rightarrow> u64 \<Rightarrow> HeartbeatMessage \<times> u64" where
  "HeartbeatMessage_default now counter = Message_ctor HEARTBEAT NORMAL now counter"

definition ErrorMessage_ctor :: "u32 \<Rightarrow> u8 list \<Rightarrow> u64 \<Rightarrow> u64 \<Rightarrow> ErrorMessage \<times> u64" where
  "ErrorMessage_ctor code emsg now counter =
     (case Message_ctor ERROR NORMAL now counter of
        (base, counter') \<Rightarrow>
          (Message.extend base (ErrorMessage.fields code emsg), counter'))"

definition ErrorMessage_default :: "u64 \<Rightarrow> u64 \<Rightarrow> ErrorMessage \<times> u64" where
  "ErrorMessage_default now counter = ErrorMessage_ctor 0 [] now counter"

text \<open>
  Constructing one message after another (here heartbeats, at the given clock
  readings), threading the counter: the messages in construction order.
\<close>

fun construct_all :: "u64 list \<Rightarrow> u64 \<Rightarrow> HeartbeatMessage list \<times> u64" where
  "construct_all [] counter = ([], counter)"
| "construct_all (now # rest) counter =
     (case HeartbeatMessage_default now counter of
        (m, counter') \<Rightarrow>
          (case construct_all rest counter' of
             (ms, counter'') \<Rightarrow> (m # ms, counter'')))"

text \<open>\<^verbatim>\<open>MessageFactory::createMessage\<close>, by type and by the leading byte of a frame.\<close>

definition createMessage :: "u8 \<Rightarrow> u64 \<Rightarrow> u64 \<Rightarrow> AnyMessage option \<times> u64" where
  "createMessage type now counter =
     (if type = ORDER_NEW \<or> type = ORDER_CANCEL \<or> type = ORDER_REPLACE \<or> type = ORDER_FILL
      then (case OrderMessage_default now counter of (m, c) \<Rightarrow> (Some (AsOrder m), c))
      else if type = MARKET_DATA
      then (case MarketDataMessage_default now counter of (m, c) \<Rightarrow> (Some (AsMarketData m), c))
      else if type = HEARTBEAT
      then (case HeartbeatMessage_default now counter of (m, c) \<Rightarrow> (Some (AsHeartbeat m), c))
      else if type = ERROR
      then (case ErrorMessage_default now counter of (m, c) \<Rightarrow> (Some (AsError m), c))
      else (None, counter))"

definition createMessage_data :: "u8 list \<Rightarrow> u64 \<Rightarrow> u64 \<Rightarrow> AnyMessage option \<times> u64" where
  "createMessage_data data now counter =
     (if data = [] then (None, counter) else createMessage (data ! 0) now counter)"

section \<open>Wire codec (message.cpp)\<close>

text \<open>
  The loops \<^verbatim>\<open>for (i = 0; i < n; ++i) data.push_back((v >> (i * 8)) & 0xFF)\<close> and
  \<^verbatim>\<open>for (i = 0; i < n; ++i) v |= static_cast<uintN_t>(data[pos++]) << (i * 8)\<close>.

  \<^verbatim>\<open>data[pos]\<close> on a \<^verbatim>\<open>std::vector\<close> is not bounds-checked: an index at or beyond
  \<^verbatim>\<open>data.size()\<close> is undefined behaviour. Every read of the model checks its index and
  the result \<open>None\<close> stands for such an out-of-range read.
\<close>

definition put_le :: "nat \<Rightarrow> 'a::len word \<Rightarrow> u8 list" where
  "put_le n v = map (\<lambda>i. ucast (drop_bit (i * 8) v AND 0xFF)) [0..<n]"

definition index :: "'a list \<Rightarrow> nat \<Rightarrow> 'a option" where
  "index data pos = (if pos < length data then Some (data ! pos) else None)"

definition get_le :: "nat \<Rightarrow> u8 list \<Rightarrow> nat \<Rightarrow> ('a::len word) option" where
  "get_le n data pos =
     (if pos + n \<le> length data
      then Some (foldl (\<lambda>acc i. acc OR push_bit (i * 8) (ucast (data ! (pos + i)))) 0 [0..<n])
      else None)"

text \<open>The 26 header bytes that every \<^verbatim>\<open>serialize\<close> writes and every \<^verbatim>\<open>deserialize\<close> reads.\<close>

definition serialize_header :: "'a Message_scheme \<Rightarrow> u8 list" where
  "serialize_header m =
     [msg_type m, priority m] @ put_le 8 (sequence_number m) @ put_le 8 (timestamp m)
       @ put_le 8 (client_id m)"

definition deserialize_header :: "'a Message_scheme \<Rightarrow> u8 list \<Rightarrow> ('a Message_scheme) option" where
  "deserialize_header m data = do {
     t \<leftarrow> index data 0;
     p \<leftarrow> index data 1;
     seq \<leftarrow> get_le 8 data 2;
     ts \<leftarrow> get_le 8 data 10;
     cid \<leftarrow> get_le 8 data 18;
     Some (m\<lparr>msg_type := t, priority := p, sequence_number := seq, timestamp := ts,
              client_id := cid\<rparr>)
   }"

definition OrderMessage_serialize :: "OrderMessage \<Rightarrow> u8 list" where
  "OrderMessage_serialize m =
     serialize_header m @ put_le 8 (order_id m)
       @ [of_nat (length (symbol m))] @ symbol m
       @ put_le 8 (price m) @ put_le 4 (quantity m) @ [if is_buy m then 1 else 0]"

text \<open>
  \<^verbatim>\<open>deserialize\<close> overwrites the members of the receiving object \<open>m\<close> as it goes and
  returns the flag with the object as it is left.
\<close>

definition OrderMessage_deserialize :: "OrderMessage \<Rightarrow> u8 list \<Rightarrow> (bool \<times> OrderMessage) option" where
  "OrderMessage_deserialize m data =
     (if length data < 50 then Some (False, m)
      else do {
        m1 \<leftarrow> deserialize_header m data;
        oid \<leftarrow> get_le 8 data 26;
        let m2 = m1\<lparr>order_id := oid\<rparr>;
        symbol_len \<leftarrow> index data 34;
        let pos = 35;
        if pos + unat symbol_len > length data then Some (False, m2)
        else do {
          let m3 = m2\<lparr>symbol := take (unat symbol_len) (drop pos data)\<rparr>;
          let pos = pos + unat symbol_len;
          price_bits \<leftarrow> get_le 8 data pos;
          qty \<leftarrow> get_le 4 data (pos + 8);
          let m4 = m3\<lparr>price := price_bits, quantity := qty\<rparr>;
          let pos = pos + 12;
          Some (True, if pos < length data then m4\<lparr>is_buy := (data ! pos \<noteq> 0)\<rparr> else m4)
        }
      })"

definition MarketDataMessage_serialize :: "MarketDataMessage \<Rightarrow> u8 list" where
  "MarketDataMessage_serialize m =
     serialize_header m
       @ [of_nat (length (md_symbol m))] @ md_symbol m
       @ put_le 8 (bid m) @ put_le 8 (ask m) @ put_le 4 (bid_size m) @ put_le 4 (ask_size m)"

definition MarketDataMessage_deserialize ::
  "MarketDataMessage \<Rightarrow> u8 list \<Rightarrow> (bool \<times> MarketDataMessage) option" where
  "MarketDataMessage_deserialize m data =
     (if length data < 50 then Some (False, m)
      else do {
        m1 \<leftarrow> deserialize_header m data;
        symbol_len \<leftarrow> index data 26;
        let pos = 27;
        if pos + unat symbol_len > length data then Some (False, m1)
        else do {
          let m2 = m1\<lparr>md_symbol := take (unat symbol_len) (drop pos data)\<rparr>;
          let pos = pos + unat symbol_len;
          bid_bits \<leftarrow> get_le 8 data pos;
          ask_bits \<leftarrow> get_le 8 data (pos + 8);
          let m3 = m2\<lparr>bid := bid_bits, ask := ask_bits\<rparr>;
          bsz \<leftarrow> get_le 4 data (pos + 16);
          asz \<leftarrow> get_le 4 data (pos + 20);
          Some (True, m3\<lparr>bid_size := bsz, ask_size := asz\<rparr>)
        }
      })"

definition HeartbeatMessage_serialize :: "HeartbeatMessage \<Rightarrow> u8 list" where
  "HeartbeatMessage_serialize m = serialize_header m"

definition HeartbeatMessage_deserialize ::
  "HeartbeatMessage \<Rightarrow> u8 list \<Rightarrow> (bool \<times> HeartbeatMessage) option" where
  "HeartbeatMessage_deserialize m data =
     (if length data < 26 then Some (False, m)
      else do {
        m1 \<leftarrow> deserialize_header m data;
        Some (True, m1)
      })"

definition ErrorMessage_serialize :: "ErrorMessage \<Rightarrow> u8 list" where
  "ErrorMessage_serialize m =
     serialize_header m @ put_le 4 (error_code m)
       @ [of_nat (length (error_message m))] @ error_message m"

definition ErrorMessage_deserialize :: "ErrorMessage \<Rightarrow> u8 list \<Rightarrow> (bool \<times> ErrorMessage) option" where
  "ErrorMessage_deserialize m data =
     (if length data < 30 then Some (False, m)
      else do {
        m1 \<leftarrow> deserialize_header m data;
        code \<leftarrow> get_le 4 data 26;
        let m2 = m1\<lparr>error_code := code\<rparr>;
        let pos = 30;
        if pos < length data
        then (let msg_len = data ! pos; pos = pos + 1
              in if pos + unat msg_len \<le> length data
                 then Some (True, m2\<lparr>error_message := take (unat msg_len) (drop pos data)\<rparr>)
                 else Some (True, m2))
        else Some (True, m2)
      })"

section \<open>Comparing doubles\<close>

text \<open>
  The IEEE-754 comparisons of two binary64 bit patterns: every comparison with a NaN is
  false, \<open>-0\<close> equals \<open>+0\<close>, and otherwise the values are ordered as their sign and
  magnitude. The literal \<^verbatim>\<open>0.0\<close> is the bit pattern 0.
\<close>

definition isnan :: "double \<Rightarrow> bool" where
  "isnan d \<longleftrightarrow>
     d AND 0x7FF0000000000000 = 0x7FF0000000000000 \<and> d AND 0x000FFFFFFFFFFFFF \<noteq> 0"

definition double_key :: "double \<Rightarrow> int" where
  "double_key d =
     (if bit d 63 then - uint (d AND 0x7FFFFFFFFFFFFFFF) else uint (d AND 0x7FFFFFFFFFFFFFFF))"

definition double_lt :: "double \<Rightarrow> double \<Rightarrow> bool" where
  "double_lt a b \<longleftrightarrow> \<not> isnan a \<and> \<not> isnan b \<and> double_key a < double_key b"

definition double_le :: "double \<Rightarrow> double \<Rightarrow> bool" where
  "double_le a b \<longleftrightarrow> \<not> isnan a \<and> \<not> isnan b \<and> double_key a \<le> double_key b"

section \<open>Interceptors (interceptor.cpp)\<close>

record InterceptorContext =
  message :: "AnyMessage option"
  start_time :: int
  end_time :: int
  metadata :: "string \<rightharpoonup> string"

definition setMetadata :: "InterceptorContext \<Rightarrow> string \<Rightarrow> string \<Rightarrow> InterceptorContext" where
  "setMetadata context k v = context\<lparr>metadata := (metadata context)(k \<mapsto> v)\<rparr>"

definition getMetadata :: "InterceptorContext \<Rightarrow> string \<Rightarrow> string" where
  "getMetadata context k = (case metadata context k of Some v \<Rightarrow> v | None \<Rightarrow> [])"

text \<open>
  \<^verbatim>\<open>ValidationInterceptor::intercept\<close>. The result is the returned flag (\<open>True\<close> is
  continue, \<open>False\<close> is stop) and the context as the call leaves it.
\<close>

definition ValidationInterceptor_intercept ::
  "InterceptorContext \<Rightarrow> bool \<times> InterceptorContext" where
  "ValidationInterceptor_intercept context =
     (case message context of
        None \<Rightarrow> (False, setMetadata context ''error'' ''Null message'')
      | Some msg \<Rightarrow>
          if getSequenceNumber msg = 0
          then (False, setMetadata context ''error'' ''Invalid sequence number'')
          else if getTimestamp msg = 0
          then (False, setMetadata context ''error'' ''Invalid timestamp'')
          else if getType msg = ORDER_NEW \<or> getType msg = ORDER_CANCEL
                  \<or> getType msg = ORDER_REPLACE
          then (case msg of
                  AsOrder order_msg \<Rightarrow>
                    if order_id order_msg = 0
                    then (False, setMetadata context ''error'' ''Invalid order ID'')
                    else if symbol order_msg = []
                    then (False, setMetadata context ''error'' ''Empty symbol'')
                    else if double_le (price order_msg) 0
                    then (False, setMetadata context ''error'' ''Invalid price'')
                    else if quantity order_msg = 0
                    then (False, setMetadata context ''error'' ''Invalid quantity'')
                    else (True, setMetadata context ''validation'' ''passed'')
                | _ \<Rightarrow> (True, setMetadata context ''validation'' ''passed''))
          else if getType msg = MARKET_DATA
          then (case msg of
                  AsMarketData md_msg \<Rightarrow>
                    if md_symbol md_msg = []
                    then (False, setMetadata context ''error'' ''Empty symbol'')
                    else if double_lt (bid md_msg) 0 \<or> double_lt (ask md_msg) 0
                    then (False, setMetadata context ''error'' ''Invalid bid/ask'')
                    else if double_le (ask md_msg) (bid md_msg)
                    then (False, setMetadata context ''error'' ''Bid >= Ask'')
                    else (True, setMetadata context ''validation'' ''passed'')
                | _ \<Rightarrow> (True, setMetadata context ''validation'' ''passed''))
          else (True, setMetadata context ''validation'' ''passed''))"

text \<open>
  The rejection condition as the specification words it: the message is absent, or its
  sequence number or timestamp is 0, or an invariant of its kind is violated, where an
  order (New, Cancel, Replace) needs a non-zero order id, a non-empty symbol, a price
  above 0 and a non-zero quantity, and market data needs bid below ask and both at
  least 0.
\<close>

definition spec_rejects :: "AnyMessage option \<Rightarrow> bool" where
  "spec_rejects mp =
     (case mp of
        None \<Rightarrow> True
      | Some msg \<Rightarrow>
          getSequenceNumber msg = 0 \<or> getTimestamp msg = 0 \<or>
          (case msg of
             AsOrder m \<Rightarrow>
               (msg_type m = ORDER_NEW \<or> msg_type m = ORDER_CANCEL \<or> msg_type m = ORDER_REPLACE)
               \<and> \<not> (order_id m \<noteq> 0 \<and> symbol m \<noteq> [] \<and> double_lt 0 (price m) \<and> quantity m \<noteq> 0)
           | AsMarketData m \<Rightarrow>
               msg_type m = MARKET_DATA
               \<and> \<not> (double_lt (bid m) (ask m) \<and> double_le 0 (bid m) \<and> double_le 0 (ask m))
           | _ \<Rightarrow> False))"

text \<open>
  The messages none of whose doubles that the validator looks at is a NaN: the price of
  an order object, the bid and the ask of a market data object.
\<close>

definition nan_free :: "AnyMessage option \<Rightarrow> bool" where
  "nan_free mp =
     (case mp of
        None \<Rightarrow> True
      | Some msg \<Rightarrow>
          (case msg of
             AsOrder m \<Rightarrow> \<not> isnan (price m)
           | AsMarketData m \<Rightarrow> \<not> isnan (bid m) \<and> \<not> isnan (ask m)
           | _ \<Rightarrow> True))"

text \<open>
  \<^verbatim>\<open>ThrottlingInterceptor\<close>. \<open>last_check\<close> is a \<^verbatim>\<open>steady_clock\<close> reading in nanoseconds,
  the two \<^verbatim>\<open>size_t\<close> members are 64-bit words. \<open>now\<close> is what
  \<^verbatim>\<open>steady_clock::now()\<close> returns in the call; \<^verbatim>\<open>duration_cast<milliseconds>\<close>
  truncates towards zero.
\<close>

record ThrottlingInterceptor =
  max_messages_per_second :: u64
  last_check :: int
  message_count :: u64

definition ThrottlingInterceptor_ctor :: "u64 \<Rightarrow> int \<Rightarrow> ThrottlingInterceptor" where
  "ThrottlingInterceptor_ctor max_per_second now =
     \<lparr>max_messages_per_second = max_per_second, last_check = now, message_count = 0\<rparr>"

definition duration_cast_ms :: "int \<Rightarrow> int" where
  "duration_cast_ms d = (if d < 0 then - ((- d) div 1000000) else d div 1000000)"

definition ThrottlingInterceptor_intercept ::
  "int \<Rightarrow> ThrottlingInterceptor \<Rightarrow> InterceptorContext
     \<Rightarrow> bool \<times> ThrottlingInterceptor \<times> InterceptorContext" where
  "ThrottlingInterceptor_intercept now this context =
     (let elapsed = duration_cast_ms (now - last_check this);
          this1 = (if 1000 \<le> elapsed then this\<lparr>message_count := 0, last_check := now\<rparr>
                   else this)
      in if max_messages_per_second this1 \<le> message_count this1
         then (False, this1, setMetadata context ''throttled'' ''Rate limit exceeded'')
         else (True, this1\<lparr>message_count := message_count this1 + 1\<rparr>,
               setMetadata context ''throttle_status'' ''accepted''))"

text \<open>
  A sequence of calls of the throttler, each with its clock reading and the context of
  its message: the flag and context of every call, and the throttler at the end.
\<close>

fun throttle_all ::
  "ThrottlingInterceptor \<Rightarrow> (int \<times> InterceptorContext) list
     \<Rightarrow> (bool \<times> InterceptorContext) list \<times> ThrottlingInterceptor" where
  "throttle_all this [] = ([], this)"
| "throttle_all this ((now, context) # rest) =
     (case ThrottlingInterceptor_intercept now this context of
        (r, this', context') \<Rightarrow>
          (case throttle_all this' rest of
             (rs, this'') \<Rightarrow> ((r, context') # rs, this'')))"

text \<open>
  What the fixed-window rule gives the \<open>i\<close>-th call (from 0) of a run of calls that
  all fall into the current window of \<open>this\<close>: accepted while the count stays below
  the limit, throttled from then on.
\<close>

definition window_outcome :: "ThrottlingInterceptor \<Rightarrow> (int \<times> InterceptorContext) list \<Rightarrow> nat \<Rightarrow> bool \<times> InterceptorContext" where
  "window_outcome this calls i =
     (if unat (message_count this) + i < unat (max_messages_per_second this)
      then (True, setMetadata (snd (calls ! i)) ''throttle_status'' ''accepted'')
      else (False, setMetadata (snd (calls ! i)) ''throttled'' ''Rate limit exceeded''))"





section \<open>Dispatcher queue (service_manager.cpp)\<close>

text \<open>
  \<^verbatim>\<open>message_queue_\<close> is a \<^verbatim>\<open>std::queue\<close> of pairs, front first. \<^verbatim>\<open>sendMessage\<close> returns
  \<^verbatim>\<open>void\<close>; the model returns the manager after the call.
\<close>

record ServiceManager =
  running :: bool
  message_queue :: "(string \<times> AnyMessage) list"

definition sendMessage :: "ServiceManager \<Rightarrow> string \<Rightarrow> AnyMessage option \<Rightarrow> ServiceManager" where
  "sendMessage this service_name msg =
     (case msg of
        None \<Rightarrow> this
      | Some m \<Rightarrow> this\<lparr>message_queue := message_queue this @ [(service_name, m)]\<rparr>)"

section \<open>Performance monitor (socket_server.cpp)\<close>

text \<open>
  A latency sample is a finite \<^verbatim>\<open>double\<close>, here the rational number it denotes.
  \<open>to_double\<close> rounds a rational to the nearest binary64 value, ties to even (53
  significant bits, gradual underflow below \<open>2\<^sup>-\<^sup>1\<^sup>0\<^sup>2\<^sup>2\<close>; overflow to infinity is not
  modelled), so that \<open>double_add\<close>, \<open>double_mul\<close> and \<open>double_div\<close> are the
  correctly rounded operations. \<open>binade p q\<close> is the \<open>e\<close> with
  \<open>2\<^sup>e \<le> p / q < 2\<^sup>e\<^sup>+\<^sup>1\<close>.
\<close>

definition binade :: "int \<Rightarrow> int \<Rightarrow> int" where
  "binade p q =
     (let e = bitlen p - bitlen q
      in if (if 0 \<le> e then q * 2 ^ nat e \<le> p else q \<le> p * 2 ^ nat (- e)) then e else e - 1)"

definition to_double :: "rat \<Rightarrow> rat" where
  "to_double x =
     (if x = 0 then 0
      else (case quotient_of \<bar>x\<bar> of
        (p, q) \<Rightarrow>
          (let s = 52 - max (binade p q) (- 1022);
               num = (if 0 \<le> s then p * 2 ^ nat s else p);
               den = (if 0 \<le> s then q else q * 2 ^ nat (- s));
               f = num div den;
               r = num mod den;
               m = (if 2 * r < den then f else if den < 2 * r then f + 1
                    else if even f then f else f + 1)
           in sgn x * (if 0 \<le> s then Fract m (2 ^ nat s) else of_int (m * 2 ^ nat (- s))))))"

definition double_add :: "rat \<Rightarrow> rat \<Rightarrow> rat" where
  "double_add a b = to_double (a + b)"

definition double_mul :: "rat \<Rightarrow> rat \<Rightarrow> rat" where
  "double_mul a b = to_double (a * b)"

definition double_div :: "rat \<Rightarrow> rat \<Rightarrow> rat" where
  "double_div a b = to_double (a / b)"

text \<open>
  \<open>stats_mutex\<close> tells whether the calling thread holds \<^verbatim>\<open>stats_mutex_\<close>, a plain
  \<^verbatim>\<open>std::mutex\<close>. A \<^verbatim>\<open>lock_guard\<close> on it while it is held never returns (the
  behaviour is undefined): the result \<open>None\<close>. \<open>None\<close> is also the result of an
  out-of-range \<^verbatim>\<open>sorted_samples[index]\<close>.
\<close>

record PerformanceMonitor =
  latency_samples :: "rat list"
  stats_mutex :: bool

definition MAX_SAMPLES :: nat where
  "MAX_SAMPLES = 100000"

definition PerformanceMonitor_ctor :: PerformanceMonitor where
  "PerformanceMonitor_ctor = \<lparr>latency_samples = [], stats_mutex = False\<rparr>"

definition recordLatency :: "PerformanceMonitor \<Rightarrow> rat \<Rightarrow> PerformanceMonitor option" where
  "recordLatency this latency_us =
     (if stats_mutex this then None
      else (let s = latency_samples this;
                s' = (if MAX_SAMPLES \<le> length s then tl s else s)
            in Some (this\<lparr>latency_samples := s' @ [latency_us]\<rparr>)))"

fun recordLatencies :: "PerformanceMonitor \<Rightarrow> rat list \<Rightarrow> PerformanceMonitor option" where
  "recordLatencies this [] = Some this"
| "recordLatencies this (x # xs) =
     (case recordLatency this x of None \<Rightarrow> None | Some this' \<Rightarrow> recordLatencies this' xs)"

definition getAverageLatency :: "PerformanceMonitor \<Rightarrow> rat option" where
  "getAverageLatency this =
     (if stats_mutex this then None
      else if latency_samples this = [] then Some 0
      else (let sum = foldl double_add 0 (latency_samples this)
            in Some (double_div sum (to_double (of_nat (length (latency_samples this)))))))"

definition percentile_index :: "nat \<Rightarrow> rat \<Rightarrow> nat" where
  "percentile_index n fraction = nat \<lfloor>double_mul (to_double (of_nat n)) (to_double fraction)\<rfloor>"

definition getP95Latency :: "PerformanceMonitor \<Rightarrow> rat option" where
  "getP95Latency this =
     (if stats_mutex this then None
      else (let locked = this\<lparr>stats_mutex := True\<rparr>
            in if length (latency_samples locked) < 20 then getAverageLatency locked
               else (let sorted_samples = sort (latency_samples locked)
                     in index sorted_samples
                          (percentile_index (length sorted_samples) (95 / 100)))))"

definition getP99Latency :: "PerformanceMonitor \<Rightarrow> rat option" where
  "getP99Latency this =
     (if stats_mutex this then None
      else (let locked = this\<lparr>stats_mutex := True\<rparr>
            in if length (latency_samples locked) < 100 then getAverageLatency locked
               else (let sorted_samples = sort (latency_samples locked)
                     in index sorted_samples
                          (percentile_index (length sorted_samples) (99 / 100)))))"

section \<open>The wire codec\<close>

lemma and_255: "x AND (0xFF :: 'a::len word) = take_bit 8 x"
proof -
  have "(0xFF :: 'a word) = mask 8" by (simp add: mask_eq_exp_minus_1)
  then show ?thesis by (simp only: take_bit_eq_mask)
qed

lemma byte_step:
  fixes v :: "'a::len word"
  shows "take_bit (n * 8) v OR push_bit (n * 8) (ucast (ucast (drop_bit (n * 8) v AND 0xFF) :: u8))
         = take_bit (Suc n * 8) v"
  apply (rule bit_eqI)
  apply (simp add: and_255 bit_simps del: mult_Suc)
  apply (auto simp: less_Suc_eq_le)
  done

lemma foldl_le:
  fixes v :: "'a::len word" and data :: "u8 list"
  assumes "\<forall>i<n. data ! (pos + i) = ucast (drop_bit (i * 8) v AND 0xFF)"
  shows "foldl (\<lambda>acc i. acc OR push_bit (i * 8) (ucast (data ! (pos + i)))) 0 [0..<n]
         = take_bit (n * 8) v"
  using assms
proof (induction n)
  case 0
  then show ?case by simp
next
  case (Suc n)
  then show ?case by (simp add: byte_step del: mult_Suc)
qed

lemma length_put_le [simp]: "length (put_le n v) = n"
  by (simp add: put_le_def)

lemma get_put_le:
  fixes v :: "'a::len word"
  assumes "LENGTH('a) \<le> n * 8"
  shows "get_le n (put_le n v @ ys) 0 = Some v"
proof -
  have "\<forall>i<n. (put_le n v @ ys) ! (0 + i) = ucast (drop_bit (i * 8) v AND 0xFF)"
    by (simp add: put_le_def nth_append)
  then have "foldl (\<lambda>acc i. acc OR push_bit (i * 8) (ucast ((put_le n v @ ys) ! (0 + i)))) 0 [0..<n]
      = take_bit (n * 8) v"
    by (rule foldl_le)
  moreover have "take_bit (n * 8) v = v"
    using assms by (simp add: take_bit_word_eq_self)
  ultimately show ?thesis
    by (simp add: get_le_def)
qed

lemma get_le_skip:
  "length xs \<le> pos \<Longrightarrow> get_le n (xs @ ys) pos = get_le n ys (pos - length xs)"
  by (auto simp: get_le_def nth_append intro!: arg_cong[where f="\<lambda>f. foldl f 0 [0..<n]"])

lemma get_le_Cons:
  "0 < pos \<Longrightarrow> get_le n (x # xs) pos = get_le n xs (pos - 1)"
  using get_le_skip[of "[x]" pos n xs] by simp

lemma index_Cons:
  "0 < pos \<Longrightarrow> index (x # xs) pos = index xs (pos - 1)"
  by (auto simp: index_def)

lemma index_skip:
  "length xs \<le> pos \<Longrightarrow> index (xs @ ys) pos = index ys (pos - length xs)"
  by (auto simp: index_def nth_append)

lemma length_serialize_header [simp]: "length (serialize_header m) = 26"
  by (simp add: serialize_header_def)

lemma deserialize_serialize_header:
  "deserialize_header m0 (serialize_header m @ rest)
     = Some (m0\<lparr>msg_type := msg_type m, priority := priority m,
               sequence_number := sequence_number m, timestamp := timestamp m,
               client_id := client_id m\<rparr>)"
proof -
  let ?d = "serialize_header m @ rest"
  have d: "?d = [msg_type m, priority m] @ put_le 8 (sequence_number m)
      @ put_le 8 (timestamp m) @ put_le 8 (client_id m) @ rest"
    by (simp add: serialize_header_def)
  have "index ?d 0 = Some (msg_type m)" "index ?d 1 = Some (priority m)"
    by (simp_all add: d index_def)
  moreover have "get_le 8 ?d 2 = Some (sequence_number m)"
    unfolding d by (simp add: get_le_skip get_le_Cons get_put_le)
  moreover have "get_le 8 ?d 10 = Some (timestamp m)"
    unfolding d by (simp add: get_le_skip get_le_Cons get_put_le)
  moreover have "get_le 8 ?d 18 = Some (client_id m)"
    unfolding d by (simp add: get_le_skip get_le_Cons get_put_le)
  ultimately show ?thesis
    by (simp add: deserialize_header_def)
qed


lemma unat_length_byte:
  "n \<le> 255 \<Longrightarrow> unat (of_nat n :: u8) = n"
  by (simp add: unat_of_nat)

lemma length_OrderMessage_serialize:
  "length (OrderMessage_serialize m) = 48 + length (symbol m)"
  by (simp add: OrderMessage_serialize_def)

lemma length_MarketDataMessage_serialize:
  "length (MarketDataMessage_serialize m) = 51 + length (md_symbol m)"
  by (simp add: MarketDataMessage_serialize_def)

lemma length_HeartbeatMessage_serialize:
  "length (HeartbeatMessage_serialize m) = 26"
  by (simp add: HeartbeatMessage_serialize_def)

lemma length_ErrorMessage_serialize:
  "length (ErrorMessage_serialize m) = 31 + length (error_message m)"
  by (simp add: ErrorMessage_serialize_def)

lemma heartbeat_roundtrip:
  "HeartbeatMessage_deserialize m0 (HeartbeatMessage_serialize m)
     = Some (True, m\<lparr>receive_time := receive_time m0\<rparr>)"
  using deserialize_serialize_header[of m0 m "[]"]
  by (simp add: HeartbeatMessage_deserialize_def HeartbeatMessage_serialize_def)

lemma order_roundtrip:
  assumes "2 \<le> length (symbol m)" "length (symbol m) \<le> 255"
  shows "OrderMessage_deserialize m0 (OrderMessage_serialize m)
     = Some (True, m\<lparr>receive_time := receive_time m0\<rparr>)"
proof -
  let ?L = "length (symbol m)"
  let ?flag = "(if is_buy m then 1 else 0) :: u8"
  let ?tail = "put_le 8 (price m) @ put_le 4 (quantity m) @ [?flag]"
  let ?body = "put_le 8 (order_id m) @ [of_nat ?L] @ symbol m @ ?tail"
  let ?d = "serialize_header m @ ?body"
  have d: "OrderMessage_serialize m = ?d" by (simp add: OrderMessage_serialize_def)
  have len: "length ?d = 48 + ?L" by simp
  have ul: "unat (of_nat ?L :: u8) = ?L" using assms(2) by (rule unat_length_byte)
  have oid: "get_le 8 ?d 26 = Some (order_id m)"
    by (simp add: get_le_skip get_put_le)
  have sl: "index ?d 34 = Some (of_nat ?L)"
    by (simp add: index_skip) (simp add: index_def)
  have sym: "take ?L (drop 35 ?d) = symbol m" by simp
  have pr: "get_le 8 ?d (35 + ?L) = Some (price m)"
    by (simp add: get_le_skip get_le_Cons get_put_le)
  have qt: "get_le 4 ?d (43 + ?L) = Some (quantity m)"
    by (simp add: get_le_skip get_le_Cons get_put_le)
  have fl: "?d ! (47 + ?L) = ?flag"
    by (simp add: nth_append)
  have "OrderMessage_deserialize m0 ?d
      = Some (True, m0\<lparr>msg_type := msg_type m, priority := priority m,
               sequence_number := sequence_number m, timestamp := timestamp m,
               client_id := client_id m, order_id := order_id m, symbol := symbol m,
               price := price m, quantity := quantity m, is_buy := is_buy m\<rparr>)"
    unfolding OrderMessage_deserialize_def len
    using assms(1) deserialize_serialize_header[of m0 m ?body] oid sl ul sym pr qt fl
    by (simp add: Let_def add.commute)
  then show ?thesis unfolding d by (cases m, cases m0) simp
qed


lemma market_data_roundtrip:
  assumes "length (md_symbol m) \<le> 255"
  shows "MarketDataMessage_deserialize m0 (MarketDataMessage_serialize m)
     = Some (True, m\<lparr>receive_time := receive_time m0\<rparr>)"
proof -
  let ?L = "length (md_symbol m)"
  let ?tail = "put_le 8 (bid m) @ put_le 8 (ask m) @ put_le 4 (bid_size m)
      @ put_le 4 (ask_size m)"
  let ?body = "[of_nat ?L] @ md_symbol m @ ?tail"
  let ?d = "serialize_header m @ ?body"
  have d: "MarketDataMessage_serialize m = ?d" by (simp add: MarketDataMessage_serialize_def)
  have len: "length ?d = 51 + ?L" by simp
  have ul: "unat (of_nat ?L :: u8) = ?L" using assms by (rule unat_length_byte)
  have sl: "index ?d 26 = Some (of_nat ?L)"
    by (simp add: index_skip) (simp add: index_def)
  have sym: "take ?L (drop 27 ?d) = md_symbol m" by simp
  have b: "get_le 8 ?d (27 + ?L) = Some (bid m)"
    by (simp add: get_le_skip get_le_Cons get_put_le)
  have a: "get_le 8 ?d (35 + ?L) = Some (ask m)"
    by (simp add: get_le_skip get_le_Cons get_put_le)
  have bs: "get_le 4 ?d (43 + ?L) = Some (bid_size m)"
    by (simp add: get_le_skip get_le_Cons get_put_le)
  have asz: "get_le 4 ?d (47 + ?L) = Some (ask_size m)"
    using get_put_le[of 4 "ask_size m" "[]"] by (simp add: get_le_skip get_le_Cons)
  have "MarketDataMessage_deserialize m0 ?d
      = Some (True, m0\<lparr>msg_type := msg_type m, priority := priority m,
               sequence_number := sequence_number m, timestamp := timestamp m,
               client_id := client_id m, md_symbol := md_symbol m, bid := bid m,
               ask := ask m, bid_size := bid_size m, ask_size := ask_size m\<rparr>)"
    unfolding MarketDataMessage_deserialize_def len
    using deserialize_serialize_header[of m0 m ?body] sl ul sym b a bs asz
    by (simp add: Let_def add.commute)
  then show ?thesis unfolding d by (cases m, cases m0) simp
qed

lemma error_roundtrip:
  assumes "length (error_message m) \<le> 255"
  shows "ErrorMessage_deserialize m0 (ErrorMessage_serialize m)
     = Some (True, m\<lparr>receive_time := receive_time m0\<rparr>)"
proof -
  let ?L = "length (error_message m)"
  let ?body = "put_le 4 (error_code m) @ [of_nat ?L] @ error_message m"
  let ?d = "serialize_header m @ ?body"
  have d: "ErrorMessage_serialize m = ?d" by (simp add: ErrorMessage_serialize_def)
  have len: "length ?d = 31 + ?L" by simp
  have ul: "unat (of_nat ?L :: u8) = ?L" using assms by (rule unat_length_byte)
  have code: "get_le 4 ?d 26 = Some (error_code m)"
    by (simp add: get_le_skip get_put_le)
  have sl: "?d ! 30 = of_nat ?L"
    by (simp add: nth_append)
  have em: "take ?L (drop 31 ?d) = error_message m" by simp
  have "ErrorMessage_deserialize m0 ?d
      = Some (True, m0\<lparr>msg_type := msg_type m, priority := priority m,
               sequence_number := sequence_number m, timestamp := timestamp m,
               client_id := client_id m, error_code := error_code m,
               error_message := error_message m\<rparr>)"
    unfolding ErrorMessage_deserialize_def len
    using deserialize_serialize_header[of m0 m ?body] code sl ul em
    by (simp add: Let_def)
  then show ?thesis unfolding d by (cases m, cases m0) simp
qed

text \<open>Where the decoders read out of range, and where they cannot.\<close>

lemma header_ok:
  "26 \<le> length data \<Longrightarrow> \<exists>m'. deserialize_header m data = Some m'"
  by (auto simp add: deserialize_header_def index_def get_le_def)

lemma heartbeat_deserialize_total:
  "HeartbeatMessage_deserialize m data \<noteq> None"
proof (cases "length data < 26")
  case True
  then show ?thesis by (simp add: HeartbeatMessage_deserialize_def)
next
  case False
  then obtain m1 where "deserialize_header m data = Some m1"
    using header_ok[of data m] by auto
  with False show ?thesis by (simp add: HeartbeatMessage_deserialize_def)
qed

lemma error_deserialize_total:
  "ErrorMessage_deserialize m data \<noteq> None"
proof (cases "length data < 30")
  case True
  then show ?thesis by (simp add: ErrorMessage_deserialize_def)
next
  case False
  then obtain m1 where "deserialize_header m data = Some m1"
    using header_ok[of data m] by auto
  with False show ?thesis
    by (auto simp add: ErrorMessage_deserialize_def get_le_def Let_def intro: exI[of _ True])
qed

lemma order_deserialize_out_of_range_iff:
  "OrderMessage_deserialize m data = None \<longleftrightarrow>
     50 \<le> length data \<and> 35 + unat (data ! 34) \<le> length data
       \<and> length data < 47 + unat (data ! 34)"
proof (cases "length data < 50")
  case True
  then show ?thesis by (simp add: OrderMessage_deserialize_def)
next
  case False
  then obtain m1 where "deserialize_header m data = Some m1"
    using header_ok[of data m] by auto
  with False show ?thesis
    by (auto simp add: OrderMessage_deserialize_def index_def get_le_def Let_def)
qed

lemma market_data_deserialize_out_of_range_iff:
  "MarketDataMessage_deserialize m data = None \<longleftrightarrow>
     50 \<le> length data \<and> 27 + unat (data ! 26) \<le> length data
       \<and> length data < 51 + unat (data ! 26)"
proof (cases "length data < 50")
  case True
  then show ?thesis by (simp add: MarketDataMessage_deserialize_def)
next
  case False
  then obtain m1 where "deserialize_header m data = Some m1"
    using header_ok[of data m] by auto
  with False show ?thesis
    by (auto simp add: MarketDataMessage_deserialize_def index_def get_le_def Let_def)
qed

text \<open>
  C1. An order with a symbol of one byte, here \<open>F\<close>, with order id 1, price 1.0,
  quantity 1 and sequence number 1, is valid; \<^verbatim>\<open>serialize\<close> gives 49 bytes, and
  \<^verbatim>\<open>deserialize\<close> refuses them at its minimum size of 50 and leaves the receiving
  object as it was.
\<close>

theorem one_byte_symbol_not_decoded:
  "OrderMessage_serialize
     \<lparr>msg_type = ORDER_NEW, priority = NORMAL, sequence_number = 1, timestamp = 1,
      client_id = 0, receive_time = 0, order_id = 1, symbol = [0x46],
      price = 0x3FF0000000000000, quantity = 1, is_buy = True\<rparr>
   = [1, 2, 1, 0, 0, 0, 0, 0, 0, 0, 1, 0, 0, 0, 0, 0, 0, 0, 0, 0, 0, 0, 0, 0, 0, 0,
      1, 0, 0, 0, 0, 0, 0, 0, 1, 0x46, 0, 0, 0, 0, 0, 0, 0xF0, 0x3F, 1, 0, 0, 0, 1] \<and>
   length (OrderMessage_serialize
     \<lparr>msg_type = ORDER_NEW, priority = NORMAL, sequence_number = 1, timestamp = 1,
      client_id = 0, receive_time = 0, order_id = 1, symbol = [0x46],
      price = 0x3FF0000000000000, quantity = 1, is_buy = True\<rparr>) = 49 \<and>
   OrderMessage_deserialize (fst (OrderMessage_default 2 2))
     (OrderMessage_serialize
       \<lparr>msg_type = ORDER_NEW, priority = NORMAL, sequence_number = 1, timestamp = 1,
        client_id = 0, receive_time = 0, order_id = 1, symbol = [0x46],
        price = 0x3FF0000000000000, quantity = 1, is_buy = True\<rparr>)
   = Some (False, fst (OrderMessage_default 2 2))"
  by code_simp

text \<open>
  C2. A frame of 50 bytes that ends with a symbol of 15 bytes passes both size checks
  of \<^verbatim>\<open>OrderMessage::deserialize\<close>, which then reads the price from \<^verbatim>\<open>data[50]\<close> on; a
  frame of 50 bytes with an empty symbol passes those of
  \<^verbatim>\<open>MarketDataMessage::deserialize\<close>, which reads the last byte of the ask size from
  \<^verbatim>\<open>data[50]\<close>. Both are reads out of range.
\<close>

theorem deserialize_reads_out_of_range:
  "OrderMessage_deserialize (fst (OrderMessage_default 2 2))
     [1, 2, 1, 0, 0, 0, 0, 0, 0, 0, 1, 0, 0, 0, 0, 0, 0, 0, 0, 0, 0, 0, 0, 0, 0, 0,
      1, 0, 0, 0, 0, 0, 0, 0, 15,
      0x41, 0x41, 0x41, 0x41, 0x41, 0x41, 0x41, 0x41, 0x41, 0x41, 0x41, 0x41, 0x41, 0x41, 0x41]
     = None \<and>
   MarketDataMessage_deserialize (fst (MarketDataMessage_default 2 2))
     [5, 2, 1, 0, 0, 0, 0, 0, 0, 0, 1, 0, 0, 0, 0, 0, 0, 0, 0, 0, 0, 0, 0, 0, 0, 0,
      0, 0, 0, 0, 0, 0, 0, 0xF0, 0x3F, 0, 0, 0, 0, 0, 0, 0, 0x40, 10, 0, 0, 0, 10, 0, 0]
     = None"
  by code_simp

section \<open>Length bytes\<close>








section \<open>The dispatcher queue\<close>

text \<open>
  C9, as the code has it. \<open>sendMessage\<close> has no capacity and no result: a non-null
  message is appended at the back of the queue, whatever the length of the queue, and a
  null message leaves the manager as it is.
\<close>

theorem sendMessage_appends:
  "message_queue (sendMessage this name (Some m)) = message_queue this @ [(name, m)] \<and>
   length (message_queue (sendMessage this name (Some m))) = Suc (length (message_queue this)) \<and>
   sendMessage this name None = this"
  by (simp add: sendMessage_def)

text \<open>
  C9 as the specification states it fails: a queue of 1000000 entries, the capacity the
  specification recommends, takes one more message.
\<close>

theorem sendMessage_queue_full_counterexample:
  "message_queue
     (sendMessage
        \<lparr>running = True,
         message_queue = replicate 1000000
           (''OrderMatching'',
            AsHeartbeat \<lparr>msg_type = HEARTBEAT, priority = NORMAL, sequence_number = 1,
                         timestamp = 1, client_id = 0, receive_time = 0\<rparr>)\<rparr>
        ''OrderMatching''
        (Some (AsHeartbeat \<lparr>msg_type = HEARTBEAT, priority = NORMAL, sequence_number = 1,
                            timestamp = 1, client_id = 0, receive_time = 0\<rparr>)))
   \<noteq> replicate 1000000
           (''OrderMatching'',
            AsHeartbeat \<lparr>msg_type = HEARTBEAT, priority = NORMAL, sequence_number = 1,
                         timestamp = 1, client_id = 0, receive_time = 0\<rparr>)"
  by (simp add: sendMessage_def)

section \<open>The sequence counter\<close>

lemma construct_all_numbers:
  "construct_all nows counter = (ms, counter') \<Longrightarrow>
     map sequence_number ms = map (\<lambda>i. counter + of_nat i) [0..<length nows] \<and>
     counter' = counter + of_nat (length nows)"
proof (induction nows arbitrary: counter ms counter')
  case Nil
  then show ?case by simp
next
  case (Cons now nows)
  obtain ms' c' where r: "construct_all nows (counter + 1) = (ms', c')"
    by (cases "construct_all nows (counter + 1)")
  with Cons.prems have ms: "ms = fst (HeartbeatMessage_default now counter) # ms'" and c: "counter' = c'"
    by (auto simp: HeartbeatMessage_default_def Message_ctor_def)
  from Cons.IH[OF r] have ih: "map sequence_number ms' = map (\<lambda>i. counter + 1 + of_nat i) [0..<length nows]"
    "c' = counter + 1 + of_nat (length nows)" by auto
  have "map (\<lambda>i. counter + of_nat i) [0..<length (now # nows)]
      = counter # map (\<lambda>i. counter + 1 + of_nat i) [0..<length nows]"
    by (simp add: upt_conv_Cons map_Suc_upt[symmetric] comp_def add.assoc del: upt_Suc)
  then show ?case using ms c ih
    by (simp add: HeartbeatMessage_default_def Message_ctor_def add.assoc del: upt_Suc)
qed

lemma unat_counter_plus:
  fixes counter :: u64
  assumes "unat counter + i < 2 ^ 64"
  shows "unat (counter + of_nat i) = unat counter + i"
proof -
  from assms have "i < 2 ^ 64" by simp
  then have "unat (of_nat i :: u64) = i" by (simp add: unat_of_nat)
  with assms show ?thesis by (simp add: unat_word_ariths)
qed

lemma construct_all_increasing:
  assumes "construct_all nows counter = (ms, counter')"
    and "unat counter + length nows \<le> 2 ^ 64"
  shows "sorted_wrt (<) (map sequence_number ms) \<and> distinct (map sequence_number ms)"
proof -
  let ?f = "\<lambda>i. counter + of_nat i"
  from construct_all_numbers[OF assms(1)]
  have m: "map sequence_number ms = map ?f [0..<length nows]" by simp
  have "sorted_wrt (<) (map ?f [0..<length nows])"
  proof (simp only: sorted_wrt_iff_nth_less length_map length_upt, intro allI impI)
    fix i j
    assume ij: "i < j" and "j < length nows - 0"
    then have j: "j < length nows" by simp
    with ij have i: "i < length nows" by simp
    from assms(2) i j have "unat counter + i < 2 ^ 64" "unat counter + j < 2 ^ 64" by simp_all
    then have "unat (?f i) = unat counter + i" "unat (?f j) = unat counter + j"
      by (simp_all add: unat_counter_plus)
    with ij have "?f i < ?f j" by (simp add: word_less_nat_alt)
    with i j show "map ?f [0..<length nows] ! i < map ?f [0..<length nows] ! j" by simp
  qed
  with m have s: "sorted_wrt (<) (map sequence_number ms)" by simp
  then have "distinct (map sequence_number ms)"
    using strict_sorted_iff by blast
  with s show ?thesis by simp
qed

text \<open>
  C4. The counter starts at 0 and \<^verbatim>\<open>fetch_add\<close> returns the old value: the first message
  a process constructs has the sequence number 0, which the validator of the same
  program rejects as invalid.
\<close>

theorem first_message_sequence_number_zero:
  "(case OrderMessage_ctor 12345 [0x41, 0x41, 0x50, 0x4C] 0x4062D00000000000 100 True now
           global_sequence_counter_init of
      (m, counter) \<Rightarrow>
        sequence_number m = 0 \<and> counter = 1 \<and>
        ValidationInterceptor_intercept
          \<lparr>message = Some (AsOrder m), start_time = 0, end_time = 0, metadata = Map.empty\<rparr>
        = (False,
           \<lparr>message = Some (AsOrder m), start_time = 0, end_time = 0,
            metadata = [''error'' \<mapsto> ''Invalid sequence number'']\<rparr>))"
  by (simp add: OrderMessage_ctor_def Message_ctor_def global_sequence_counter_init_def
      ValidationInterceptor_intercept_def setMetadata_def Message.defs OrderMessage.defs)

section \<open>The performance monitor\<close>

lemma binade_int:
  assumes "0 < k"
  shows "binade k 1 = bitlen k - 1"
proof -
  have b1: "bitlen 1 = 1" by (simp add: bitlen_alt_def)
  from assms have "1 \<le> bitlen k" by (auto simp: bitlen_alt_def)
  moreover from bitlen_bounds[OF assms] have "2 ^ nat (bitlen k - 1) \<le> k" ..
  ultimately show ?thesis by (simp add: binade_def b1 Let_def)
qed

lemma to_double_int:
  assumes "0 < k" "k < 2 ^ 53"
  shows "to_double (of_int k) = of_int k"
proof -
  from assms(1) have ge: "1 \<le> bitlen k" by (auto simp: bitlen_alt_def)
  from assms(2) have le: "bitlen k \<le> 53" by (simp add: bitlen_le_iff_power)
  define s where "s = 52 - max (binade k 1) (- 1022)"
  have s: "s = 53 - bitlen k" "0 \<le> s"
    using ge le by (simp_all add: s_def binade_int[OF assms(1)])
  have q: "quotient_of \<bar>rat_of_int k\<bar> = (k, 1)"
    using assms(1) by simp
  have "Fract (k * 2 ^ nat s) (2 ^ nat s) = rat_of_int k"
    by (simp add: Fract_of_int_quotient)
  then show ?thesis
    using assms(1) s q by (simp add: to_double_def Let_def s_def)
qed

lemma to_double_nat:
  "n < 2 ^ 53 \<Longrightarrow> to_double (of_nat n) = of_nat n"
proof (cases "n = 0")
  case True
  then show ?thesis by (simp add: to_double_def)
next
  case False
  assume "n < 2 ^ 53"
  with False have "0 < int n" "int n < 2 ^ 53" by simp_all
  from to_double_int[OF this] show ?thesis by simp
qed

lemma accumulate_exact:
  "a + sum_list ns < 2 ^ 53 \<Longrightarrow>
     foldl double_add (of_nat a) (map of_nat ns) = of_nat (a + sum_list ns)"
proof (induction ns arbitrary: a)
  case Nil
  then show ?case by simp
next
  case (Cons n ns)
  then have "a + n < 2 ^ 53" by simp
  then have "double_add (of_nat a) (of_nat n) = of_nat (a + n)"
    using to_double_nat[of "a + n"] by (simp add: double_add_def)
  with Cons.IH[of "a + n"] Cons.prems show ?case by (simp add: add.assoc)
qed


lemma recordLatencies_append:
  "\<not> stats_mutex this \<Longrightarrow> length (latency_samples this) + length xs \<le> MAX_SAMPLES \<Longrightarrow>
     recordLatencies this xs = Some (this\<lparr>latency_samples := latency_samples this @ xs\<rparr>)"
proof (induction xs arbitrary: this)
  case Nil
  then show ?case by simp
next
  case (Cons x xs)
  let ?this1 = "this\<lparr>latency_samples := latency_samples this @ [x]\<rparr>"
  from Cons.prems have r: "recordLatency this x = Some ?this1"
    by (simp add: recordLatency_def Let_def)
  from Cons.prems have "\<not> stats_mutex ?this1"
    "length (latency_samples ?this1) + length xs \<le> MAX_SAMPLES" by simp_all
  from Cons.IH[OF this] r show ?case by simp
qed

lemma recordLatencies_ctor:
  "length xs \<le> 100000 \<Longrightarrow>
     recordLatencies PerformanceMonitor_ctor xs = Some \<lparr>latency_samples = xs, stats_mutex = False\<rparr>"
  using recordLatencies_append[of PerformanceMonitor_ctor xs]
  by (simp add: PerformanceMonitor_ctor_def MAX_SAMPLES_def)

lemma index_95: "percentile_index 100 (95 / 100) = 95"
  by code_simp

lemma index_99: "percentile_index 100 (99 / 100) = 99"
  by code_simp

lemma average_5050: "double_div 5050 (to_double (of_nat 100)) = 101 / 2"
  by code_simp

lemma sum_1_100: "sum_list [1..<101] = 5050"
  by code_simp

lemma sorted_1_100: "sorted (map rat_of_nat [1..<101])"
  by (simp add: sorted_map sorted_wrt_iff_nth_less del: upt_Suc)

lemma samples_1_100:
  assumes "mset xs = mset (map rat_of_nat [1..<101])"
  shows "length xs = 100"
    and "sort xs = map rat_of_nat [1..<101]"
    and "foldl double_add 0 xs = 5050"
proof -
  from assms have "size (mset xs) = size (mset (map rat_of_nat [1..<101]))" by simp
  then show "length xs = 100" by simp
  from assms sorted_1_100 show "sort xs = map rat_of_nat [1..<101]"
    by (simp add: properties_for_sort)
  let ?g = "\<lambda>x::rat. nat \<lfloor>x\<rfloor>"
  define ns where "ns = map ?g xs"
  from assms have "set xs = set (map rat_of_nat [1..<101])" by (rule mset_eq_setD)
  then have "\<forall>x\<in>set xs. rat_of_nat (?g x) = x" by auto
  then have "map rat_of_nat ns = xs" unfolding ns_def by (simp add: map_idI)
  moreover have "mset ns = mset [1..<101]"
  proof -
    have "mset ns = image_mset ?g (mset xs)" by (simp add: ns_def)
    also have "\<dots> = image_mset ?g (image_mset rat_of_nat (mset [1..<101]))"
      using assms by simp
    also have "\<dots> = mset [1..<101]"
      by (simp add: multiset.map_comp comp_def del: mset_upt)
    finally show ?thesis .
  qed
  ultimately have ns: "xs = map rat_of_nat ns" "mset ns = mset [1..<101]" by simp_all
  from ns(2) have "sum_list ns = sum_list [1..<101]"
    by (metis sum_mset_sum_list)
  then have sum: "sum_list ns = 5050" by (simp only: sum_1_100)
  have "foldl double_add (of_nat 0) (map of_nat ns) = of_nat (0 + sum_list ns)"
    by (rule accumulate_exact) (simp add: sum)
  then show "foldl double_add 0 xs = 5050" using ns(1) sum by simp
qed


lemma percentile_fallback_blocks:
  assumes "\<not> stats_mutex this"
  shows "length (latency_samples this) < 20 \<Longrightarrow> getP95Latency this = None"
    and "length (latency_samples this) < 100 \<Longrightarrow> getP99Latency this = None"
  using assms by (simp_all add: getP95Latency_def getP99Latency_def getAverageLatency_def)

lemma monitor_1_100:
  assumes "mset xs = mset (map rat_of_nat [1..<101])"
  shows "getAverageLatency \<lparr>latency_samples = xs, stats_mutex = False\<rparr> = Some (101 / 2)"
    and "getP95Latency \<lparr>latency_samples = xs, stats_mutex = False\<rparr> = Some 96"
    and "getP99Latency \<lparr>latency_samples = xs, stats_mutex = False\<rparr> = Some 100"
proof -
  note s = samples_1_100[OF assms]
  from s(1) have ne: "xs \<noteq> []" by auto
  show "getAverageLatency \<lparr>latency_samples = xs, stats_mutex = False\<rparr> = Some (101 / 2)"
    using ne s(1) s(3) average_5050 by (simp add: getAverageLatency_def)
  have i95: "index (map rat_of_nat [1..<101]) 95 = Some 96"
    by (simp add: index_def del: upt_Suc)
  have i99: "index (map rat_of_nat [1..<101]) 99 = Some 100"
    by (simp add: index_def del: upt_Suc)
  show "getP95Latency \<lparr>latency_samples = xs, stats_mutex = False\<rparr> = Some 96"
    using s(1) s(2) index_95 i95 by (simp add: getP95Latency_def del: upt_Suc)
  show "getP99Latency \<lparr>latency_samples = xs, stats_mutex = False\<rparr> = Some 100"
    using s(1) s(2) index_99 i99 by (simp add: getP99Latency_def del: upt_Suc)
qed

text \<open>
  C3, as the code has it. After the samples 1, 2, ..., 100 have been recorded into a new
  monitor, in any order, the average latency is 50.5, the 95th percentile is 96 and the
  99th percentile is 100: the sorted samples are indexed from 0, so that the value at
  index 95 is 96 and the value at index 99 is 100.
\<close>

theorem percentiles_1_to_100:
  "mset xs = mset (map rat_of_nat [1..<101]) \<Longrightarrow>
     map_option (\<lambda>this. (getAverageLatency this, getP95Latency this, getP99Latency this))
       (recordLatencies PerformanceMonitor_ctor xs)
     = Some (Some (101 / 2), Some 96, Some 100)"
proof -
  assume a: "mset xs = mset (map rat_of_nat [1..<101])"
  then have "length xs = 100" by (rule samples_1_100(1))
  then have "recordLatencies PerformanceMonitor_ctor xs
      = Some \<lparr>latency_samples = xs, stats_mutex = False\<rparr>"
    by (simp add: recordLatencies_ctor)
  with monitor_1_100[OF a] show ?thesis by simp
qed

theorem percentiles_1_to_100_witness:
  "map_option (\<lambda>this. (getAverageLatency this, getP95Latency this, getP99Latency this))
     (recordLatencies PerformanceMonitor_ctor (map rat_of_nat (rev [1..<101])))
   = Some (Some (101 / 2), Some 96, Some 100)"
proof -
  have "mset (map rat_of_nat (rev [1..<101])) = mset (map rat_of_nat [1..<101])"
    by (simp del: upt_Suc mset_upt)
  then show ?thesis by (rule percentiles_1_to_100)
qed

text \<open>
  C3 as the specification states it fails: for the samples 1, 2, ..., 100 the 95th
  percentile of the code is not 95 and the 99th percentile is not 99.
\<close>

theorem percentiles_1_to_100_counterexample:
  "recordLatencies PerformanceMonitor_ctor (map rat_of_nat [1..<101])
     = Some \<lparr>latency_samples = map rat_of_nat [1..<101], stats_mutex = False\<rparr> \<and>
   getP95Latency \<lparr>latency_samples = map rat_of_nat [1..<101], stats_mutex = False\<rparr> \<noteq> Some 95 \<and>
   getP99Latency \<lparr>latency_samples = map rat_of_nat [1..<101], stats_mutex = False\<rparr> \<noteq> Some 99"
proof -
  have "recordLatencies PerformanceMonitor_ctor (map rat_of_nat [1..<101])
     = Some \<lparr>latency_samples = map rat_of_nat [1..<101], stats_mutex = False\<rparr>"
    by (rule recordLatencies_ctor) simp
  moreover have "mset (map rat_of_nat [1..<101]) = mset (map rat_of_nat [1..<101])" ..
  note monitor_1_100[OF this]
  ultimately show ?thesis by (simp del: upt_Suc)
qed

section \<open>The validator\<close>

lemma double_zero: "\<not> isnan 0" "double_key 0 = 0"
  by (simp_all add: isnan_def double_key_def)

lemma intercept_passed_or_error:
  "ValidationInterceptor_intercept ctx = (r, ctx') \<Longrightarrow>
     (r \<longrightarrow> ctx' = setMetadata ctx ''validation'' ''passed'') \<and>
     (\<not> r \<longrightarrow> (\<exists>e. ctx' = setMetadata ctx ''error'' e))"
  by (auto simp: ValidationInterceptor_intercept_def split: option.splits AnyMessage.splits if_splits)

lemma not_lt_zero_iff:
  "\<not> isnan d \<Longrightarrow> \<not> double_lt 0 d \<longleftrightarrow> double_le d 0"
  by (auto simp: double_lt_def double_le_def double_zero)

lemma not_le_zero_iff:
  "\<not> isnan d \<Longrightarrow> \<not> double_le 0 d \<longleftrightarrow> double_lt d 0"
  by (auto simp: double_lt_def double_le_def double_zero)

lemma not_lt_iff:
  "\<not> isnan a \<Longrightarrow> \<not> isnan b \<Longrightarrow> \<not> double_lt a b \<longleftrightarrow> double_le b a"
  by (auto simp: double_lt_def double_le_def)

text \<open>
  C5, with the symbol of market data added to the invariants. For a message whose price,
  bid and ask are not NaN, the validator returns stop exactly when the message is
  absent, or its sequence number or timestamp is 0, or an invariant of its kind is
  violated: an order object of type New, Cancel or Replace needs a non-zero order id, a
  non-empty symbol, a price above 0 and a non-zero quantity, and a market data object of
  type MarketData needs a non-empty symbol, bid below ask and both at least 0. With stop
  it sets \<open>error\<close>, with continue it sets \<open>validation\<close> to \<open>passed\<close>, and it changes
  nothing else.
\<close>

theorem validator_rejects_iff:
  assumes "nan_free (message ctx)"
  shows "(fst (ValidationInterceptor_intercept ctx) = False \<longleftrightarrow>
      (case message ctx of
         None \<Rightarrow> True
       | Some msg \<Rightarrow>
           getSequenceNumber msg = 0 \<or> getTimestamp msg = 0 \<or>
           (case msg of
              AsOrder m \<Rightarrow>
                (msg_type m = ORDER_NEW \<or> msg_type m = ORDER_CANCEL \<or> msg_type m = ORDER_REPLACE)
                \<and> \<not> (order_id m \<noteq> 0 \<and> symbol m \<noteq> [] \<and> double_lt 0 (price m)
                       \<and> quantity m \<noteq> 0)
            | AsMarketData m \<Rightarrow>
                msg_type m = MARKET_DATA
                \<and> \<not> (md_symbol m \<noteq> [] \<and> double_lt (bid m) (ask m)
                       \<and> double_le 0 (bid m) \<and> double_le 0 (ask m))
            | _ \<Rightarrow> False))) \<and>
   (if fst (ValidationInterceptor_intercept ctx)
    then snd (ValidationInterceptor_intercept ctx) = setMetadata ctx ''validation'' ''passed''
    else \<exists>e. snd (ValidationInterceptor_intercept ctx) = setMetadata ctx ''error'' e)"
proof (rule conjI)
  show "fst (ValidationInterceptor_intercept ctx) = False \<longleftrightarrow>
      (case message ctx of
         None \<Rightarrow> True
       | Some msg \<Rightarrow>
           getSequenceNumber msg = 0 \<or> getTimestamp msg = 0 \<or>
           (case msg of
              AsOrder m \<Rightarrow>
                (msg_type m = ORDER_NEW \<or> msg_type m = ORDER_CANCEL \<or> msg_type m = ORDER_REPLACE)
                \<and> \<not> (order_id m \<noteq> 0 \<and> symbol m \<noteq> [] \<and> double_lt 0 (price m)
                       \<and> quantity m \<noteq> 0)
            | AsMarketData m \<Rightarrow>
                msg_type m = MARKET_DATA
                \<and> \<not> (md_symbol m \<noteq> [] \<and> double_lt (bid m) (ask m)
                       \<and> double_le 0 (bid m) \<and> double_le 0 (ask m))
            | _ \<Rightarrow> False))"
  proof (cases "message ctx")
    case None
    then show ?thesis by (simp add: ValidationInterceptor_intercept_def)
  next
    case (Some msg)
    show ?thesis
    proof (cases msg)
      case (AsOrder m)
      with Some assms have "\<not> isnan (price m)" by (simp add: nan_free_def)
      then have "\<not> double_lt 0 (price m) \<longleftrightarrow> double_le (price m) 0"
        by (rule not_lt_zero_iff)
      with Some AsOrder show ?thesis
        by (auto simp: ValidationInterceptor_intercept_def)
    next
      case (AsMarketData m)
      with Some assms have n: "\<not> isnan (bid m)" "\<not> isnan (ask m)"
        by (simp_all add: nan_free_def)
      have "\<not> double_lt (bid m) (ask m) \<longleftrightarrow> double_le (ask m) (bid m)"
        "\<not> double_le 0 (bid m) \<longleftrightarrow> double_lt (bid m) 0"
        "\<not> double_le 0 (ask m) \<longleftrightarrow> double_lt (ask m) 0"
        using n by (simp_all add: not_lt_iff not_le_zero_iff)
      with Some AsMarketData show ?thesis
        by (auto simp: ValidationInterceptor_intercept_def)
    next
      case (AsHeartbeat m)
      with Some show ?thesis by (auto simp: ValidationInterceptor_intercept_def)
    next
      case (AsError m)
      with Some show ?thesis by (auto simp: ValidationInterceptor_intercept_def)
    qed
  qed
next
  obtain r ctx' where v: "ValidationInterceptor_intercept ctx = (r, ctx')"
    by (cases "ValidationInterceptor_intercept ctx")
  from intercept_passed_or_error[OF v] v
  show "if fst (ValidationInterceptor_intercept ctx)
    then snd (ValidationInterceptor_intercept ctx) = setMetadata ctx ''validation'' ''passed''
    else \<exists>e. snd (ValidationInterceptor_intercept ctx) = setMetadata ctx ''error'' e"
    by simp
qed

theorem validator_rejects_iff_witness:
  "nan_free (Some (AsOrder
        \<lparr>msg_type = ORDER_NEW, priority = NORMAL, sequence_number = 1, timestamp = 1,
         client_id = 0, receive_time = 0, order_id = 12345, symbol = [0x41, 0x41, 0x50, 0x4C],
         price = 0x4062D00000000000, quantity = 100, is_buy = True\<rparr>)) \<and>
   fst (ValidationInterceptor_intercept
     \<lparr>message = Some (AsOrder
        \<lparr>msg_type = ORDER_NEW, priority = NORMAL, sequence_number = 1, timestamp = 1,
         client_id = 0, receive_time = 0, order_id = 12345, symbol = [0x41, 0x41, 0x50, 0x4C],
         price = 0x4062D00000000000, quantity = 100, is_buy = True\<rparr>),
      start_time = 0, end_time = 0, metadata = Map.empty\<rparr>) \<and>
   metadata (snd (ValidationInterceptor_intercept
     \<lparr>message = Some (AsOrder
        \<lparr>msg_type = ORDER_NEW, priority = NORMAL, sequence_number = 1, timestamp = 1,
         client_id = 0, receive_time = 0, order_id = 12345, symbol = [0x41, 0x41, 0x50, 0x4C],
         price = 0x4062D00000000000, quantity = 100, is_buy = True\<rparr>),
      start_time = 0, end_time = 0, metadata = Map.empty\<rparr>)) = [''validation'' \<mapsto> ''passed'']"
proof -
  let ?m = "\<lparr>msg_type = ORDER_NEW, priority = NORMAL, sequence_number = 1, timestamp = 1,
         client_id = 0, receive_time = 0, order_id = 12345, symbol = [0x41, 0x41, 0x50, 0x4C],
         price = 0x4062D00000000000, quantity = 100, is_buy = True\<rparr>"
  let ?ctx = "\<lparr>message = Some (AsOrder ?m),
      start_time = 0, end_time = 0, metadata = Map.empty\<rparr>"
  have n: "\<not> isnan 0x4062D00000000000" by (simp add: isnan_def)
  then have h: "nan_free (message ?ctx)" by (simp add: nan_free_def)
  have "double_key 0x4062D00000000000 = 0x4062D00000000000"
    by (simp add: double_key_def bit_numeral_simps)
  with n have p: "double_lt 0 0x4062D00000000000"
    by (simp add: double_lt_def double_zero)
  from validator_rejects_iff[OF h] p
  have "fst (ValidationInterceptor_intercept ?ctx)
    \<and> snd (ValidationInterceptor_intercept ?ctx) = setMetadata ?ctx ''validation'' ''passed''"
    by (simp split: if_splits)
  with h show ?thesis by (simp add: setMetadata_def)
qed

text \<open>
  C5 as the specification states it fails: market data with an empty symbol is rejected,
  though bid is below ask, both are positive (1.0 and 2.0), and neither the sequence
  number nor the timestamp is 0.
\<close>

theorem validator_empty_symbol_counterexample:
  "ValidationInterceptor_intercept
     \<lparr>message = Some (AsMarketData
        \<lparr>msg_type = MARKET_DATA, priority = NORMAL, sequence_number = 1, timestamp = 1,
         client_id = 0, receive_time = 0, md_symbol = [], bid = 0x3FF0000000000000,
         ask = 0x4000000000000000, bid_size = 10, ask_size = 10\<rparr>),
      start_time = 0, end_time = 0, metadata = Map.empty\<rparr>
   = (False,
      \<lparr>message = Some (AsMarketData
        \<lparr>msg_type = MARKET_DATA, priority = NORMAL, sequence_number = 1, timestamp = 1,
         client_id = 0, receive_time = 0, md_symbol = [], bid = 0x3FF0000000000000,
         ask = 0x4000000000000000, bid_size = 10, ask_size = 10\<rparr>),
       start_time = 0, end_time = 0, metadata = [''error'' \<mapsto> ''Empty symbol'']\<rparr>) \<and>
   \<not> spec_rejects (Some (AsMarketData
        \<lparr>msg_type = MARKET_DATA, priority = NORMAL, sequence_number = 1, timestamp = 1,
         client_id = 0, receive_time = 0, md_symbol = [], bid = 0x3FF0000000000000,
         ask = 0x4000000000000000, bid_size = 10, ask_size = 10\<rparr>))"
proof -
  have n: "\<not> isnan 0x3FF0000000000000" "\<not> isnan 0x4000000000000000"
    by (simp_all add: isnan_def)
  have k: "double_key 0x3FF0000000000000 = 0x3FF0000000000000"
    "double_key 0x4000000000000000 = 0x4000000000000000"
    by (simp_all add: double_key_def bit_numeral_simps)
  show ?thesis
    by (simp add: ValidationInterceptor_intercept_def setMetadata_def spec_rejects_def
        double_lt_def double_le_def n k double_zero)
qed

section \<open>Order fills\<close>

lemma header_sets_type:
  "deserialize_header m data = Some m' \<Longrightarrow> msg_type m' = data ! 0"
  by (auto simp: deserialize_header_def index_def split: bind_splits if_splits)

lemma order_deserialize_type:
  "OrderMessage_deserialize m data = Some (True, m') \<Longrightarrow> msg_type m' = data ! 0"
  by (auto simp: OrderMessage_deserialize_def Let_def dest!: header_sets_type
      split: bind_splits if_splits)

text \<open>
  C10. An order object whose type is ORDER_FILL, with a sequence number and a timestamp
  other than 0, passes the validator whatever its order id, symbol, price and quantity
  are. The factory makes an order object for a frame that starts with the byte of
  ORDER_FILL, and \<^verbatim>\<open>OrderMessage::deserialize\<close> gives the object the type of the frame.
\<close>

theorem order_fill_not_validated:
  "(msg_type m = ORDER_FILL \<and> sequence_number m \<noteq> 0 \<and> timestamp m \<noteq> 0 \<longrightarrow>
      ValidationInterceptor_intercept (ctx\<lparr>message := Some (AsOrder m)\<rparr>)
        = (True, setMetadata (ctx\<lparr>message := Some (AsOrder m)\<rparr>) ''validation'' ''passed'')) \<and>
   (data \<noteq> [] \<and> data ! 0 = ORDER_FILL \<longrightarrow>
      fst (createMessage_data data now counter)
        = Some (AsOrder (fst (OrderMessage_default now counter)))) \<and>
   (OrderMessage_deserialize m0 data = Some (True, m') \<longrightarrow> msg_type m' = data ! 0)"
  by (auto simp: ValidationInterceptor_intercept_def createMessage_data_def createMessage_def
      order_deserialize_type split: prod.splits)


theorem order_fill_not_validated_witness:
  "OrderMessage_deserialize (fst (OrderMessage_default 1 1))
     [4, 2, 1, 0, 0, 0, 0, 0, 0, 0, 1, 0, 0, 0, 0, 0, 0, 0, 0, 0, 0, 0, 0, 0, 0, 0,
      0, 0, 0, 0, 0, 0, 0, 0, 0, 0, 0, 0, 0, 0, 0, 0, 0, 0, 0, 0, 0, 1, 0, 0]
     = Some (True,
        \<lparr>msg_type = ORDER_FILL, priority = NORMAL, sequence_number = 1, timestamp = 1,
         client_id = 0, receive_time = 0, order_id = 0, symbol = [], price = 0,
         quantity = 0, is_buy = True\<rparr>) \<and>
   fst (createMessage_data
     [4, 2, 1, 0, 0, 0, 0, 0, 0, 0, 1, 0, 0, 0, 0, 0, 0, 0, 0, 0, 0, 0, 0, 0, 0, 0,
      0, 0, 0, 0, 0, 0, 0, 0, 0, 0, 0, 0, 0, 0, 0, 0, 0, 0, 0, 0, 0, 1, 0, 0] 1 1)
     = Some (AsOrder (fst (OrderMessage_default 1 1))) \<and>
   ValidationInterceptor_intercept
     \<lparr>message = Some (AsOrder
        \<lparr>msg_type = ORDER_FILL, priority = NORMAL, sequence_number = 1, timestamp = 1,
         client_id = 0, receive_time = 0, order_id = 0, symbol = [], price = 0,
         quantity = 0, is_buy = True\<rparr>),
      start_time = 0, end_time = 0, metadata = Map.empty\<rparr>
     = (True,
        \<lparr>message = Some (AsOrder
          \<lparr>msg_type = ORDER_FILL, priority = NORMAL, sequence_number = 1, timestamp = 1,
           client_id = 0, receive_time = 0, order_id = 0, symbol = [], price = 0,
           quantity = 0, is_buy = True\<rparr>),
         start_time = 0, end_time = 0, metadata = [''validation'' \<mapsto> ''passed'']\<rparr>)"
proof -
  let ?data = "[4, 2, 1, 0, 0, 0, 0, 0, 0, 0, 1, 0, 0, 0, 0, 0, 0, 0, 0, 0, 0, 0, 0, 0, 0, 0,
      0, 0, 0, 0, 0, 0, 0, 0, 0, 0, 0, 0, 0, 0, 0, 0, 0, 0, 0, 0, 0, 1, 0, 0] :: u8 list"
  let ?m = "\<lparr>msg_type = ORDER_FILL, priority = NORMAL, sequence_number = 1, timestamp = 1,
         client_id = 0, receive_time = 0, order_id = 0, symbol = [], price = 0,
         quantity = 0, is_buy = True\<rparr>"
  let ?ctx = "\<lparr>message = None, start_time = 0, end_time = 0, metadata = Map.empty\<rparr>"
  have d: "OrderMessage_deserialize (fst (OrderMessage_default 1 1)) ?data = Some (True, ?m)"
    by code_simp
  have h1: "msg_type ?m = ORDER_FILL \<and> sequence_number ?m \<noteq> 0 \<and> timestamp ?m \<noteq> 0"
    by simp
  have h2: "?data \<noteq> [] \<and> ?data ! 0 = ORDER_FILL" by simp
  note inst = order_fill_not_validated[of ?m ?ctx ?data 1 1 "fst (OrderMessage_default 1 1)" ?m]
  from inst h1 have c1: "ValidationInterceptor_intercept (?ctx\<lparr>message := Some (AsOrder ?m)\<rparr>)
        = (True, setMetadata (?ctx\<lparr>message := Some (AsOrder ?m)\<rparr>) ''validation'' ''passed'')"
    by blast
  from inst h2 have c2: "fst (createMessage_data ?data 1 1)
        = Some (AsOrder (fst (OrderMessage_default 1 1)))"
    by blast
  from c1 c2 d show ?thesis by (simp add: setMetadata_def)
qed

section \<open>The throttler\<close>

lemma unat_count_Suc:
  fixes c m :: u64
  assumes "c < m"
  shows "unat (c + 1) = Suc (unat c)"
proof -
  have "unat c < unat m" using assms by (simp add: word_less_nat_alt)
  moreover have "unat m < 2 ^ 64" using unsigned_less[of m] by simp
  ultimately have "unat c + 1 < 2 ^ 64" by simp
  then show ?thesis by (simp add: unat_word_ariths)
qed

lemma intercept_same_window:
  assumes "duration_cast_ms (now - last_check this) < 1000"
  shows "ThrottlingInterceptor_intercept now this context =
     (if max_messages_per_second this \<le> message_count this
      then (False, this, setMetadata context ''throttled'' ''Rate limit exceeded'')
      else (True, this\<lparr>message_count := message_count this + 1\<rparr>,
            setMetadata context ''throttle_status'' ''accepted''))"
  using assms by (simp add: ThrottlingInterceptor_intercept_def Let_def)

lemma map_upt_Cons: "map f [0..<Suc n] = f 0 # map (\<lambda>i. f (Suc i)) [0..<n]"
proof -
  have "[0..<Suc n] = 0 # map Suc [0..<n]"
    by (simp add: upt_conv_Cons map_Suc_upt del: upt_Suc)
  then show ?thesis by (simp add: comp_def del: upt_Suc)
qed

lemma throttle_all_window:
  assumes "\<forall>(now, context) \<in> set calls. duration_cast_ms (now - last_check this) < 1000"
  shows "case throttle_all this calls of
      (rs, this') \<Rightarrow>
        rs = map (window_outcome this calls) [0..<length calls] \<and>
        length (filter fst rs)
          = min (length calls) (unat (max_messages_per_second this) - unat (message_count this)) \<and>
        unat (message_count this') = unat (message_count this) + length (filter fst rs) \<and>
        last_check this' = last_check this \<and>
        max_messages_per_second this' = max_messages_per_second this"
  using assms
proof (induction calls arbitrary: this)
  case Nil
  then show ?case by simp
next
  case (Cons call calls)
  obtain now ctx where call: "call = (now, ctx)" by (cases call)
  from Cons.prems call have w: "duration_cast_ms (now - last_check this) < 1000" by simp
  note step = intercept_same_window[OF w, of ctx]
  show ?case
  proof (cases "max_messages_per_second this \<le> message_count this")
    case True
    from Cons.prems have "\<forall>(now, context) \<in> set calls. duration_cast_ms (now - last_check this) < 1000"
      by simp
    from Cons.IH[OF this] obtain rs this' where
      r: "throttle_all this calls = (rs, this')"
      and ih: "rs = map (window_outcome this calls) [0..<length calls]"
        "length (filter fst rs) = min (length calls) (unat (max_messages_per_second this) - unat (message_count this))"
        "unat (message_count this') = unat (message_count this) + length (filter fst rs)"
        "last_check this' = last_check this"
        "max_messages_per_second this' = max_messages_per_second this"
      by (cases "throttle_all this calls") auto
    from True have le: "unat (max_messages_per_second this) \<le> unat (message_count this)"
      by (simp add: word_le_nat_alt)
    have shift: "map (window_outcome this (call # calls)) [0..<length (call # calls)]
        = window_outcome this (call # calls) 0 # map (window_outcome this calls) [0..<length calls]"
      using le by (simp add: window_outcome_def map_upt_Cons del: upt_Suc)
    let ?h = "(False, setMetadata ctx ''throttled'' ''Rate limit exceeded'')"
    have head: "window_outcome this (call # calls) 0 = ?h"
      using le call by (simp add: window_outcome_def)
    have ta: "throttle_all this (call # calls) = (?h # rs, this')"
      using True step r call by simp
    have c1: "?h # rs = map (window_outcome this (call # calls)) [0..<length (call # calls)]"
      unfolding shift head ih(1) ..
    have c2: "length (filter fst (?h # rs))
        = min (length (call # calls)) (unat (max_messages_per_second this) - unat (message_count this))"
      using ih(2) le by simp
    have c3: "unat (message_count this') = unat (message_count this) + length (filter fst (?h # rs))"
      using ih(3) by simp
    show ?thesis
      unfolding ta prod.case using c1 c2 c3 ih(4) ih(5) by blast
  next
    case False
    let ?this1 = "this\<lparr>message_count := message_count this + 1\<rparr>"
    from False have lt: "message_count this < max_messages_per_second this" by simp
    then have ult: "unat (message_count this) < unat (max_messages_per_second this)"
      by (simp add: word_less_nat_alt)
    have cnt: "unat (message_count ?this1) = Suc (unat (message_count this))"
      using unat_count_Suc[OF lt] by simp
    from Cons.prems have "\<forall>(now, context) \<in> set calls. duration_cast_ms (now - last_check ?this1) < 1000"
      by simp
    from Cons.IH[OF this] obtain rs this' where
      r: "throttle_all ?this1 calls = (rs, this')"
      and ih: "rs = map (window_outcome ?this1 calls) [0..<length calls]"
        "length (filter fst rs) = min (length calls) (unat (max_messages_per_second ?this1) - unat (message_count ?this1))"
        "unat (message_count this') = unat (message_count ?this1) + length (filter fst rs)"
        "last_check this' = last_check ?this1"
        "max_messages_per_second this' = max_messages_per_second ?this1"
      by (cases "throttle_all ?this1 calls") auto
    have shift: "map (window_outcome this (call # calls)) [0..<length (call # calls)]
        = window_outcome this (call # calls) 0 # map (window_outcome ?this1 calls) [0..<length calls]"
      using cnt by (simp add: window_outcome_def map_upt_Cons del: upt_Suc)
    let ?h = "(True, setMetadata ctx ''throttle_status'' ''accepted'')"
    have head: "window_outcome this (call # calls) 0 = ?h"
      using ult call by (simp add: window_outcome_def)
    have ta: "throttle_all this (call # calls) = (?h # rs, this')"
      using False step r call by simp
    have c1: "?h # rs = map (window_outcome this (call # calls)) [0..<length (call # calls)]"
      unfolding shift head ih(1) ..
    have c2: "length (filter fst (?h # rs))
        = min (length (call # calls)) (unat (max_messages_per_second this) - unat (message_count this))"
      using ih(2) ult cnt by simp
    have c3: "unat (message_count this') = unat (message_count this) + length (filter fst (?h # rs))"
      using ih(3) cnt by simp
    have c4: "last_check this' = last_check this" using ih(4) by simp
    have c5: "max_messages_per_second this' = max_messages_per_second this" using ih(5) by simp
    show ?thesis
      unfolding ta prod.case using c1 c2 c3 c4 c5 by blast
  qed
qed


text \<open>
  C7. A call in the current window (fewer than 1000 ms since \<open>last_check\<close>) returns
  continue, sets \<open>throttle_status\<close> and adds one to the count if the count is below
  \<open>max_messages_per_second\<close>, and otherwise returns stop, sets \<open>throttled\<close> and leaves
  the throttler as it is. With \<open>max_messages_per_second = N\<close> and a count of \<open>k\<close>,
  consider calls that all fall into the current window. The \<open>i\<close>-th of
  them (from 0) returns continue and sets \<open>throttle_status\<close> to \<open>accepted\<close> if
  \<open>k + i < N\<close>, and otherwise returns stop and sets \<open>throttled\<close> to
  \<open>Rate limit exceeded\<close>; so at most \<open>N - k\<close> calls continue, the count goes up by one for
  each of them and stays for the others, and the window start stays. A call that comes
  1000 ms or more after \<open>last_check\<close> first resets the state to \<open>(now, 0)\<close> and is then
  checked against the count 0.
\<close>

theorem throttle_fixed_window:
  "(duration_cast_ms (t0 - last_check this) < 1000 \<longrightarrow>
      ThrottlingInterceptor_intercept t0 this c =
        (if max_messages_per_second this \<le> message_count this
         then (False, this, setMetadata c ''throttled'' ''Rate limit exceeded'')
         else (True, this\<lparr>message_count := message_count this + 1\<rparr>,
               setMetadata c ''throttle_status'' ''accepted''))) \<and>
   ((\<forall>(now, context) \<in> set calls. duration_cast_ms (now - last_check this) < 1000) \<longrightarrow>
      (case throttle_all this calls of
         (rs, this') \<Rightarrow>
           rs = map (\<lambda>i. if unat (message_count this) + i < unat (max_messages_per_second this)
                          then (True, setMetadata (snd (calls ! i)) ''throttle_status'' ''accepted'')
                          else (False, setMetadata (snd (calls ! i)) ''throttled''
                                  ''Rate limit exceeded''))
                  [0..<length calls] \<and>
           length (filter fst rs)
             = min (length calls)
                 (unat (max_messages_per_second this) - unat (message_count this)) \<and>
           unat (message_count this') = unat (message_count this) + length (filter fst rs) \<and>
           last_check this' = last_check this)) \<and>
   (1000 \<le> duration_cast_ms (t - last_check this) \<longrightarrow>
      ThrottlingInterceptor_intercept t this c =
        (if max_messages_per_second this = 0
         then (False, this\<lparr>message_count := 0, last_check := t\<rparr>,
               setMetadata c ''throttled'' ''Rate limit exceeded'')
         else (True, this\<lparr>message_count := 1, last_check := t\<rparr>,
               setMetadata c ''throttle_status'' ''accepted'')))"
proof (intro conjI impI)
  assume "duration_cast_ms (t0 - last_check this) < 1000"
  then show "ThrottlingInterceptor_intercept t0 this c =
        (if max_messages_per_second this \<le> message_count this
         then (False, this, setMetadata c ''throttled'' ''Rate limit exceeded'')
         else (True, this\<lparr>message_count := message_count this + 1\<rparr>,
               setMetadata c ''throttle_status'' ''accepted''))"
    by (rule intercept_same_window)
next
  assume "\<forall>(now, context) \<in> set calls. duration_cast_ms (now - last_check this) < 1000"
  from throttle_all_window[OF this]
  show "case throttle_all this calls of
         (rs, this') \<Rightarrow>
           rs = map (\<lambda>i. if unat (message_count this) + i < unat (max_messages_per_second this)
                          then (True, setMetadata (snd (calls ! i)) ''throttle_status'' ''accepted'')
                          else (False, setMetadata (snd (calls ! i)) ''throttled''
                                  ''Rate limit exceeded''))
                  [0..<length calls] \<and>
           length (filter fst rs)
             = min (length calls)
                 (unat (max_messages_per_second this) - unat (message_count this)) \<and>
           unat (message_count this') = unat (message_count this) + length (filter fst rs) \<and>
           last_check this' = last_check this"
    unfolding window_outcome_def by (cases "throttle_all this calls") simp
next
  assume "1000 \<le> duration_cast_ms (t - last_check this)"
  then show "ThrottlingInterceptor_intercept t this c =
        (if max_messages_per_second this = 0
         then (False, this\<lparr>message_count := 0, last_check := t\<rparr>,
               setMetadata c ''throttled'' ''Rate limit exceeded'')
         else (True, this\<lparr>message_count := 1, last_check := t\<rparr>,
               setMetadata c ''throttle_status'' ''accepted''))"
    by (simp add: ThrottlingInterceptor_intercept_def Let_def)
qed

theorem throttle_fixed_window_witness:
  "duration_cast_ms (1000000 - last_check (ThrottlingInterceptor_ctor 2 0)) < 1000 \<and>
   duration_cast_ms (2000000 - last_check (ThrottlingInterceptor_ctor 2 0)) < 1000 \<and>
   duration_cast_ms (3000000 - last_check (ThrottlingInterceptor_ctor 2 0)) < 1000 \<and>
   ThrottlingInterceptor_intercept 1000000 (ThrottlingInterceptor_ctor 2 0)
       \<lparr>message = None, start_time = 0, end_time = 0, metadata = Map.empty\<rparr>
     = (True, \<lparr>max_messages_per_second = 2, last_check = 0, message_count = 1\<rparr>,
        \<lparr>message = None, start_time = 0, end_time = 0,
         metadata = [''throttle_status'' \<mapsto> ''accepted'']\<rparr>) \<and>
   throttle_all (ThrottlingInterceptor_ctor 2 0)
        [(1000000, \<lparr>message = None, start_time = 0, end_time = 0, metadata = Map.empty\<rparr>),
         (2000000, \<lparr>message = None, start_time = 0, end_time = 0, metadata = Map.empty\<rparr>),
         (3000000, \<lparr>message = None, start_time = 0, end_time = 0, metadata = Map.empty\<rparr>)]
     = ([(True, \<lparr>message = None, start_time = 0, end_time = 0,
                 metadata = [''throttle_status'' \<mapsto> ''accepted'']\<rparr>),
         (True, \<lparr>message = None, start_time = 0, end_time = 0,
                 metadata = [''throttle_status'' \<mapsto> ''accepted'']\<rparr>),
         (False, \<lparr>message = None, start_time = 0, end_time = 0,
                  metadata = [''throttled'' \<mapsto> ''Rate limit exceeded'']\<rparr>)],
        \<lparr>max_messages_per_second = 2, last_check = 0, message_count = 2\<rparr>) \<and>
   1000 \<le> duration_cast_ms (1000000000 - last_check (ThrottlingInterceptor_ctor 2 0)) \<and>
   ThrottlingInterceptor_intercept 1000000000 (ThrottlingInterceptor_ctor 2 0)
       \<lparr>message = None, start_time = 0, end_time = 0, metadata = Map.empty\<rparr>
     = (True, \<lparr>max_messages_per_second = 2, last_check = 1000000000, message_count = 1\<rparr>,
        \<lparr>message = None, start_time = 0, end_time = 0,
         metadata = [''throttle_status'' \<mapsto> ''accepted'']\<rparr>)"
proof -
  let ?c = "\<lparr>message = None, start_time = 0, end_time = 0, metadata = Map.empty\<rparr>"
  let ?calls = "[(1000000::int, ?c), (2000000, ?c), (3000000, ?c)]"
  let ?th = "ThrottlingInterceptor_ctor 2 0"
  have h1: "\<forall>(now, context) \<in> set ?calls. duration_cast_ms (now - last_check ?th) < 1000"
    by (simp add: ThrottlingInterceptor_ctor_def duration_cast_ms_def)
  have h2: "1000 \<le> duration_cast_ms (1000000000 - last_check ?th)"
    by (simp add: ThrottlingInterceptor_ctor_def duration_cast_ms_def)
  note inst = throttle_fixed_window[of 1000000 ?th ?c ?calls 1000000000]
  have a: "case throttle_all ?th ?calls of
         (rs, this') \<Rightarrow>
           rs = map (\<lambda>i. if unat (message_count ?th) + i < unat (max_messages_per_second ?th)
                          then (True, setMetadata (snd (?calls ! i)) ''throttle_status'' ''accepted'')
                          else (False, setMetadata (snd (?calls ! i)) ''throttled''
                                  ''Rate limit exceeded''))
                  [0..<length ?calls] \<and>
           length (filter fst rs)
             = min (length ?calls)
                 (unat (max_messages_per_second ?th) - unat (message_count ?th)) \<and>
           unat (message_count this') = unat (message_count ?th) + length (filter fst rs) \<and>
           last_check this' = last_check ?th"
    by (rule inst[THEN conjunct2, THEN conjunct1, THEN mp, OF h1])
  have b: "ThrottlingInterceptor_intercept 1000000000 ?th ?c =
        (if max_messages_per_second ?th = 0
         then (False, ?th\<lparr>message_count := 0, last_check := 1000000000\<rparr>,
               setMetadata ?c ''throttled'' ''Rate limit exceeded'')
         else (True, ?th\<lparr>message_count := 1, last_check := 1000000000\<rparr>,
               setMetadata ?c ''throttle_status'' ''accepted''))"
    by (rule inst[THEN conjunct2, THEN conjunct2, THEN mp, OF h2])
  have h0: "duration_cast_ms (1000000 - last_check ?th) < 1000"
    by (simp add: ThrottlingInterceptor_ctor_def duration_cast_ms_def)
  have "ThrottlingInterceptor_intercept 1000000 ?th ?c =
        (if max_messages_per_second ?th \<le> message_count ?th
         then (False, ?th, setMetadata ?c ''throttled'' ''Rate limit exceeded'')
         else (True, ?th\<lparr>message_count := message_count ?th + 1\<rparr>,
               setMetadata ?c ''throttle_status'' ''accepted''))"
    by (rule inst[THEN conjunct1, THEN mp, OF h0])
  then have first: "ThrottlingInterceptor_intercept 1000000 ?th ?c
     = (True, \<lparr>max_messages_per_second = 2, last_check = 0, message_count = 1\<rparr>,
        \<lparr>message = None, start_time = 0, end_time = 0,
         metadata = [''throttle_status'' \<mapsto> ''accepted'']\<rparr>)"
    by (simp add: ThrottlingInterceptor_ctor_def setMetadata_def word_le_nat_alt)
  have ta: "throttle_all ?th ?calls
     = ([(True, setMetadata ?c ''throttle_status'' ''accepted''),
         (True, setMetadata ?c ''throttle_status'' ''accepted''),
         (False, setMetadata ?c ''throttled'' ''Rate limit exceeded'')],
        \<lparr>max_messages_per_second = 2, last_check = 0, message_count = 2\<rparr>)"
    by (simp add: ThrottlingInterceptor_ctor_def ThrottlingInterceptor_intercept_def
        duration_cast_ms_def Let_def word_le_nat_alt)
  from b have "ThrottlingInterceptor_intercept 1000000000 ?th ?c
     = (True, \<lparr>max_messages_per_second = 2, last_check = 1000000000, message_count = 1\<rparr>,
        setMetadata ?c ''throttle_status'' ''accepted'')"
    by (simp add: ThrottlingInterceptor_ctor_def)
  with a h1 h2 ta first show ?thesis by (simp add: setMetadata_def)
qed

section \<open>The interceptor chain\<close>








end
